theory Spec2Isabelle
  imports Main "HOL-Library.Word"
begin

section \<open>The RGB PWM driver (rgb-promini.ino)\<close>

text \<open>
  The sketch targets the Arduino Pro Mini (an AVR): \<^verbatim>\<open>int\<close> is 16 bits wide,
  \<^verbatim>\<open>long\<close> and \<^verbatim>\<open>unsigned long\<close> are 32 bits wide, \<^verbatim>\<open>uint8_t\<close> is a byte.
  The global arrays of \<^verbatim>\<open>NUM_COLORS\<close> elements are functions from the index; the
  program only ever uses the indices \<open>0\<close>, \<open>1\<close> and \<open>2\<close>.
\<close>

type_synonym c_int = "16 word"
type_synonym c_ulong = "32 word"
type_synonym byte = "8 word"
type_synonym pin = nat

subsection \<open>Constants\<close>

definition EEPROM_DATA_OFFSET :: nat where
  "EEPROM_DATA_OFFSET = 0"

definition NUM_COLORS :: nat where
  "NUM_COLORS = 3"

definition HOLD_TIME_CLEAR :: c_int where
  "HOLD_TIME_CLEAR = 1500"

definition HOLD_TIME_SAVE :: c_int where
  "HOLD_TIME_SAVE = 1000"

definition BLINK_DELAY :: c_int where
  "BLINK_DELAY = 100"

definition PWM_INCREMENT :: c_int where
  "PWM_INCREMENT = 16"

definition INPUTS :: "pin list" where
  "INPUTS = [10, 11, 12]"

definition OUTPUTS :: "pin list" where
  "OUTPUTS = [3, 5, 6]"

text \<open>
  \<^verbatim>\<open>long debounceDelay = 30\<close>: a global that no statement assigns to. Its only use is
  the comparison with an \<^verbatim>\<open>unsigned long\<close>, for which it is converted to that type.
\<close>

definition debounceDelay :: c_ulong where
  "debounceDelay = 30"

text \<open>The Arduino core's \<^verbatim>\<open>LOW\<close> and \<^verbatim>\<open>HIGH\<close> are the integers 0 and 1.\<close>

definition LOW :: c_int where
  "LOW = 0"

definition HIGH :: c_int where
  "HIGH = 1"

subsection \<open>The hardware interface\<close>

text \<open>
  Every call that acts on the hardware is recorded, in program order, as an event.
  \<^verbatim>\<open>analogWrite(uint8_t pin, int val)\<close>, \<^verbatim>\<open>delay(unsigned long ms)\<close>,
  \<^verbatim>\<open>EEPROM.write(int idx, uint8_t val)\<close> and \<^verbatim>\<open>pinMode(pin, mode)\<close>.
\<close>

datatype pin_mode = INPUT | OUTPUT

datatype event =
    PinMode pin pin_mode
  | AnalogWrite pin c_int
  | Delay c_ulong
  | EepromWrite nat byte

text \<open>
  \<^verbatim>\<open>digitalRead\<close> of the Arduino core returns \<^verbatim>\<open>HIGH\<close> when the pin's input bit is
  set and \<^verbatim>\<open>LOW\<close> otherwise; the electrical levels of a cycle are a parameter
  \<open>pins\<close> of the model.
\<close>

definition digitalRead :: "(pin \<Rightarrow> bool) \<Rightarrow> pin \<Rightarrow> c_int" where
  "digitalRead pins p = (if pins p then HIGH else LOW)"

text \<open>The Arduino macro \<^verbatim>\<open>min(a,b) ((a)<(b)?(a):(b))\<close> on two \<^verbatim>\<open>int\<close>s: a signed comparison.\<close>

definition min_int :: "c_int \<Rightarrow> c_int \<Rightarrow> c_int" where
  "min_int a b = (if a <s b then a else b)"

subsection \<open>The global state\<close>

text \<open>
  \<^verbatim>\<open>lastDebounceTimes\<close> is declared \<^verbatim>\<open>long\<close>; it is only ever assigned the
  \<^verbatim>\<open>unsigned long\<close> timestamp and read back inside \<^verbatim>\<open>ts - lastDebounceTimes[i]\<close>,
  where it is converted to \<^verbatim>\<open>unsigned long\<close> again, so its 32 bits are kept as they are.
\<close>

record state =
  Values :: "nat \<Rightarrow> c_int"
  lastValues :: "nat \<Rightarrow> c_int"
  curButtonStates :: "nat \<Rightarrow> c_int"
  lastButtonStates :: "nat \<Rightarrow> c_int"
  buttonsHeld :: "nat \<Rightarrow> c_int"
  lastDebounceTimes :: "nat \<Rightarrow> c_ulong"
  eeprom :: "nat \<Rightarrow> byte"
  trace :: "event list"

text \<open>The state at power-on: the initialisers of the globals, the EEPROM as it was left.\<close>

definition init :: "(nat \<Rightarrow> byte) \<Rightarrow> state" where
  "init e =
     \<lparr>Values = (\<lambda>_. 0), lastValues = (\<lambda>_. 0), curButtonStates = (\<lambda>_. LOW),
      lastButtonStates = (\<lambda>_. LOW), buttonsHeld = (\<lambda>_. 0), lastDebounceTimes = (\<lambda>_. 0),
      eeprom = e, trace = []\<rparr>"

definition emit :: "event \<Rightarrow> state \<Rightarrow> state" where
  "emit ev s = s\<lparr>trace := trace s @ [ev]\<rparr>"

text \<open>\<^verbatim>\<open>for (int i = 0; i < NUM_COLORS; ++i) body\<close>\<close>

definition for_colors :: "(nat \<Rightarrow> state \<Rightarrow> state) \<Rightarrow> state \<Rightarrow> state" where
  "for_colors body s = fold body [0..<NUM_COLORS] s"

subsection \<open>SaveState and LoadState\<close>

definition SaveState :: "state \<Rightarrow> state" where
  "SaveState =
     for_colors (\<lambda>i s.
       emit (EepromWrite (i + EEPROM_DATA_OFFSET) (ucast (Values s i)))
         (s\<lparr>eeprom := (eeprom s)(i + EEPROM_DATA_OFFSET := ucast (Values s i))\<rparr>))"

definition LoadState :: "state \<Rightarrow> state" where
  "LoadState =
     for_colors (\<lambda>i s.
       let r = (ucast (eeprom s (i + EEPROM_DATA_OFFSET)) :: c_int)
       in s\<lparr>lastValues := (lastValues s)(i := r), Values := (Values s)(i := r)\<rparr>)"

subsection \<open>Start-up\<close>

text \<open>The function \<^verbatim>\<open>setup()\<close> of the sketch.\<close>

definition setup_sketch :: "state \<Rightarrow> state" where
  "setup_sketch s =
     (let s1 = for_colors (\<lambda>i s. emit (PinMode (OUTPUTS ! i) OUTPUT)
                                   (emit (PinMode (INPUTS ! i) INPUT) s)) s;
          s2 = for_colors (\<lambda>i s. emit (AnalogWrite (OUTPUTS ! i) 0) s) s1;
          s3 = LoadState s2
      in for_colors (\<lambda>i s. emit (AnalogWrite (OUTPUTS ! i) (Values s i)) s) s3)"

subsection \<open>loop\<close>

text \<open>Lines 110 to 115: the new value of a channel on a tap.\<close>

definition increment :: "c_int \<Rightarrow> c_int" where
  "increment v = min_int (if v = 255 then 0 else v + PWM_INCREMENT) 255"

text \<open>
  Lines 98 to 129, the body of the first loop for channel \<open>i\<close>. The differences
  \<^verbatim>\<open>ts - lastDebounceTimes[i]\<close> are \<^verbatim>\<open>unsigned long\<close>, so the other operand of each
  comparison is converted to \<^verbatim>\<open>unsigned long\<close> and the comparison is unsigned.
\<close>

definition check_channel :: "c_ulong \<Rightarrow> (pin \<Rightarrow> bool) \<Rightarrow> nat \<Rightarrow> state \<Rightarrow> state" where
  "check_channel ts pins i s =
     (let reading = digitalRead pins (INPUTS ! i);
          s1 = (if reading \<noteq> lastButtonStates s i
                then s\<lparr>lastDebounceTimes := (lastDebounceTimes s)(i := ts)\<rparr> else s);
          s2 = (if ts - lastDebounceTimes s1 i > debounceDelay
                then (if reading \<noteq> curButtonStates s1 i
                      then (let a = s1\<lparr>curButtonStates := (curButtonStates s1)(i := reading)\<rparr>;
                                b = (if curButtonStates a i = LOW \<and> buttonsHeld a i = 0
                                     then a\<lparr>Values := (Values a)(i := increment (Values a i))\<rparr>
                                     else a)
                            in b\<lparr>buttonsHeld := (buttonsHeld b)(i := 0)\<rparr>)
                      else s1)
                else s1);
          s3 = (if curButtonStates s2 i = HIGH
                   \<and> ts - lastDebounceTimes s2 i > scast HOLD_TIME_CLEAR
                then s2\<lparr>Values := (Values s2)(i := 0), buttonsHeld := (buttonsHeld s2)(i := 1)\<rparr>
                else s2)
      in s3\<lparr>lastButtonStates := (lastButtonStates s3)(i := reading)\<rparr>)"

definition check_channels :: "c_ulong \<Rightarrow> (pin \<Rightarrow> bool) \<Rightarrow> state \<Rightarrow> state" where
  "check_channels ts pins = for_colors (check_channel ts pins)"

text \<open>Lines 133 to 138: apply the current state if there were any changes.\<close>

definition apply_channel :: "nat \<Rightarrow> state \<Rightarrow> state" where
  "apply_channel i s =
     (if Values s i \<noteq> lastValues s i
      then (emit (AnalogWrite (OUTPUTS ! i) (Values s i)) s)\<lparr>lastValues := (lastValues s)(i := Values s i)\<rparr>
      else s)"

definition apply_state :: "state \<Rightarrow> state" where
  "apply_state = for_colors apply_channel"

text \<open>Lines 141 to 146: the condition of the save gesture.\<close>

definition save_condition :: "c_ulong \<Rightarrow> state \<Rightarrow> bool" where
  "save_condition ts s \<longleftrightarrow>
     curButtonStates s 0 = HIGH \<and> curButtonStates s 1 = HIGH \<and> curButtonStates s 2 = HIGH
     \<and> ts - lastDebounceTimes s 0 > scast HOLD_TIME_SAVE
     \<and> ts - lastDebounceTimes s 1 > scast HOLD_TIME_SAVE
     \<and> ts - lastDebounceTimes s 2 > scast HOLD_TIME_SAVE"

text \<open>Lines 148 to 167: the blink, the held flags, the write to the EEPROM.\<close>

definition all_off :: "state \<Rightarrow> state" where
  "all_off = for_colors (\<lambda>i s. emit (AnalogWrite (OUTPUTS ! i) 0) s)"

definition all_on :: "state \<Rightarrow> state" where
  "all_on = for_colors (\<lambda>i s. emit (AnalogWrite (OUTPUTS ! i) (Values s i)) s)"

definition save_gesture :: "state \<Rightarrow> state" where
  "save_gesture s =
     (let s1 = all_off s;
          s2 = emit (Delay (scast BLINK_DELAY)) s1;
          s3 = all_on s2;
          s4 = emit (Delay (scast BLINK_DELAY)) s3;
          s5 = all_off s4;
          s6 = emit (Delay (scast BLINK_DELAY)) s5;
          s7 = all_on s6;
          s8 = s7\<lparr>buttonsHeld := (buttonsHeld s7)(2 := 1, 1 := 1, 0 := 1)\<rparr>
      in SaveState s8)"

text \<open>One pass of \<^verbatim>\<open>loop()\<close>, with \<open>ts\<close> the value \<^verbatim>\<open>millis()\<close> returns.\<close>

definition loop :: "c_ulong \<Rightarrow> (pin \<Rightarrow> bool) \<Rightarrow> state \<Rightarrow> state" where
  "loop ts pins s =
     (let s1 = check_channels ts pins s;
          s2 = apply_state s1
      in if save_condition ts s2 then save_gesture s2 else s2)"

text \<open>The passes of \<^verbatim>\<open>loop()\<close> one after another, each with its timestamp and pin levels.\<close>

fun run :: "state \<Rightarrow> (c_ulong \<times> (pin \<Rightarrow> bool)) list \<Rightarrow> state" where
  "run s [] = s"
| "run s (x # xs) = run (loop (fst x) (snd x) s) xs"

section \<open>Derived notions\<close>

subsection \<open>One channel on its own\<close>

text \<open>
  The six array entries of channel \<open>i\<close>, and what one pass of the first loop of
  \<^verbatim>\<open>loop()\<close> does to them (lemma \<open>view_check_channels\<close> below).
\<close>

record channel =
  val :: c_int
  lastval :: c_int
  cur :: c_int
  lastb :: c_int
  held :: c_int
  ldt :: c_ulong

definition view :: "state \<Rightarrow> nat \<Rightarrow> channel" where
  "view s i =
     \<lparr>val = Values s i, lastval = lastValues s i, cur = curButtonStates s i,
      lastb = lastButtonStates s i, held = buttonsHeld s i, ldt = lastDebounceTimes s i\<rparr>"

definition chan_step :: "c_ulong \<Rightarrow> c_int \<Rightarrow> channel \<Rightarrow> channel" where
  "chan_step ts reading c =
     (let t = (if reading \<noteq> lastb c then ts else ldt c);
          commit = (ts - t > 30 \<and> reading \<noteq> cur c);
          cu = (if commit then reading else cur c);
          hold = (cu = HIGH \<and> ts - t > 1500)
      in \<lparr>val = (if hold then 0
                 else if commit \<and> reading = LOW \<and> held c = 0 then increment (val c)
                 else val c),
          lastval = lastval c,
          cur = cu, lastb = reading,
          held = (if hold then 1 else if commit then 0 else held c),
          ldt = t\<rparr>)"

subsection \<open>The events of one pass\<close>

definition apply_events :: "state \<Rightarrow> event list" where
  "apply_events s =
     concat (map (\<lambda>i. if Values s i \<noteq> lastValues s i
                        then [AnalogWrite (OUTPUTS ! i) (Values s i)] else []) [0..<NUM_COLORS])"

definition blink_events :: "state \<Rightarrow> event list" where
  "blink_events s =
     [AnalogWrite 3 0, AnalogWrite 5 0, AnalogWrite 6 0, Delay 100,
      AnalogWrite 3 (Values s 0), AnalogWrite 5 (Values s 1), AnalogWrite 6 (Values s 2), Delay 100,
      AnalogWrite 3 0, AnalogWrite 5 0, AnalogWrite 6 0, Delay 100,
      AnalogWrite 3 (Values s 0), AnalogWrite 5 (Values s 1), AnalogWrite 6 (Values s 2)]"

definition store_events :: "state \<Rightarrow> event list" where
  "store_events s =
     [EepromWrite 0 (ucast (Values s 0)), EepromWrite 1 (ucast (Values s 1)),
      EepromWrite 2 (ucast (Values s 2))]"

text \<open>The events that one pass of \<^verbatim>\<open>loop()\<close> adds to the trace.\<close>

definition tick_events :: "c_ulong \<Rightarrow> (pin \<Rightarrow> bool) \<Rightarrow> state \<Rightarrow> event list" where
  "tick_events ts pins s = drop (length (trace s)) (trace (loop ts pins s))"

subsection \<open>Runs and their invariants\<close>

text \<open>No pass of the run meets the condition of the save gesture.\<close>

fun save_free :: "state \<Rightarrow> (c_ulong \<times> (pin \<Rightarrow> bool)) list \<Rightarrow> bool" where
  "save_free s [] = True"
| "save_free s (x # xs) \<longleftrightarrow>
     \<not> save_condition (fst x) (check_channels (fst x) (snd x) s)
     \<and> save_free (loop (fst x) (snd x) s) xs"

text \<open>After every pass of the run the stable state of channel \<open>i\<close> is \<open>c\<close>.\<close>

fun stays :: "nat \<Rightarrow> c_int \<Rightarrow> state \<Rightarrow> (c_ulong \<times> (pin \<Rightarrow> bool)) list \<Rightarrow> bool" where
  "stays i c s [] = True"
| "stays i c s (x # xs) \<longleftrightarrow>
     curButtonStates (loop (fst x) (snd x) s) i = c \<and> stays i c (loop (fst x) (snd x) s) xs"

text \<open>
  After every pass of the run, at most 1500 ms have gone by since the last raw transition
  of channel \<open>i\<close>: the test of line 124 cannot succeed.
\<close>

fun fresh :: "nat \<Rightarrow> state \<Rightarrow> (c_ulong \<times> (pin \<Rightarrow> bool)) list \<Rightarrow> bool" where
  "fresh i s [] = True"
| "fresh i s (x # xs) \<longleftrightarrow>
     fst x - lastDebounceTimes (loop (fst x) (snd x) s) i \<le> 1500
     \<and> fresh i (loop (fst x) (snd x) s) xs"

text \<open>
  No pass of the run commits a release of channel \<open>j\<close>, and none leaves it pressed more
  than 1500 ms after its last raw transition.
\<close>

fun undisturbed :: "nat \<Rightarrow> state \<Rightarrow> (c_ulong \<times> (pin \<Rightarrow> bool)) list \<Rightarrow> bool" where
  "undisturbed j s [] = True"
| "undisturbed j s (x # xs) \<longleftrightarrow>
     \<not> (curButtonStates s j \<noteq> LOW \<and> curButtonStates (loop (fst x) (snd x) s) j = LOW)
     \<and> \<not> (curButtonStates (loop (fst x) (snd x) s) j = HIGH
          \<and> 1500 < fst x - lastDebounceTimes (loop (fst x) (snd x) s) j)
     \<and> undisturbed j (loop (fst x) (snd x) s) xs"

text \<open>The value of the last \<^verbatim>\<open>analogWrite\<close> to a pin in a trace.\<close>

fun last_written :: "pin \<Rightarrow> event list \<Rightarrow> c_int option" where
  "last_written p [] = None"
| "last_written p (e # es) =
     (case last_written p es of
        Some v \<Rightarrow> Some v
      | None \<Rightarrow> (case e of AnalogWrite q v \<Rightarrow> if q = p then Some v else None | _ \<Rightarrow> None))"

definition written_ok :: "state \<Rightarrow> bool" where
  "written_ok s \<longleftrightarrow>
     (\<forall>i<NUM_COLORS. last_written (OUTPUTS ! i) (trace s) = Some (lastValues s i))"

definition byte_ok :: "state \<Rightarrow> bool" where
  "byte_ok s \<longleftrightarrow> (\<forall>i<NUM_COLORS. 0 \<le> sint (Values s i) \<and> sint (Values s i) \<le> 255)"

subsection \<open>Example inputs\<close>

text \<open>The pin levels when the three buttons are down or up as given.\<close>

definition buttons :: "bool \<Rightarrow> bool \<Rightarrow> bool \<Rightarrow> pin \<Rightarrow> bool" where
  "buttons r g b p = (p = 10 \<and> r \<or> p = 11 \<and> g \<or> p = 12 \<and> b)"

text \<open>A state in which the three brightness values are 16, 32 and 255.\<close>

definition lit :: state where
  "lit = (init (\<lambda>_. 0))\<lparr>Values := (\<lambda>_. 0)(0 := 16, 1 := 32, 2 := 255)\<rparr>"

definition none_down :: "pin \<Rightarrow> bool" where
  "none_down = buttons False False False"

definition red_down :: "pin \<Rightarrow> bool" where
  "red_down = buttons True False False"

definition green_down :: "pin \<Rightarrow> bool" where
  "green_down = buttons False True False"

definition red_green_down :: "pin \<Rightarrow> bool" where
  "red_green_down = buttons True True False"

definition all_down :: "pin \<Rightarrow> bool" where
  "all_down = buttons True True True"

text \<open>An EEPROM that holds 16 in every cell, one that holds 240, and the states after start-up.\<close>

definition rom16 :: "nat \<Rightarrow> byte" where
  "rom16 a = 16"

definition rom240 :: "nat \<Rightarrow> byte" where
  "rom240 a = 240"

definition boot16 :: state where
  "boot16 = setup_sketch (init rom16)"

definition boot240 :: state where
  "boot240 = setup_sketch (init rom240)"

text \<open>
  A tap on the first and on the second button: down at 0 ms, still down at 31 ms, up at
  40 ms, still up at 71 ms.
\<close>

definition tap_red :: "(c_ulong \<times> (pin \<Rightarrow> bool)) list" where
  "tap_red = [(0, red_down), (31, red_down), (40, none_down), (71, none_down)]"

definition tap_green :: "(c_ulong \<times> (pin \<Rightarrow> bool)) list" where
  "tap_green = [(0, green_down), (31, green_down), (40, none_down), (71, none_down)]"

text \<open>The first and the second button tapped together.\<close>

definition tap_red_green :: "(c_ulong \<times> (pin \<Rightarrow> bool)) list" where
  "tap_red_green =
     [(0, red_green_down), (31, red_green_down), (40, none_down), (71, none_down)]"

text \<open>
  A tap on the first button that bounces: the passes before the press is committed at
  51 ms, the passes before the release is committed at 111 ms, and the passes after it.
\<close>

definition bounce_press :: "(c_ulong \<times> (pin \<Rightarrow> bool)) list" where
  "bounce_press = [(0, red_down), (10, none_down), (20, red_down)]"

definition bounce_release :: "(c_ulong \<times> (pin \<Rightarrow> bool)) list" where
  "bounce_release = [(60, none_down), (70, red_down), (80, none_down)]"

definition bounce_after :: "(c_ulong \<times> (pin \<Rightarrow> bool)) list" where
  "bounce_after = [(200, none_down), (90000, none_down)]"

text \<open>The first button debounced as pressed; the same, and the raw input released at 40 ms.\<close>

definition red_pressed16 :: state where
  "red_pressed16 = run boot16 [(0, red_down), (31, red_down)]"

definition red_releasing16 :: state where
  "red_releasing16 = run boot16 [(0, red_down), (31, red_down), (40, none_down)]"

definition red_releasing240 :: state where
  "red_releasing240 = run boot240 [(0, red_down), (31, red_down), (40, none_down)]"

text \<open>The three buttons debounced as pressed.\<close>

definition all_pressed16 :: state where
  "all_pressed16 = run boot16 [(0, all_down), (31, all_down)]"

section \<open>Properties\<close>

subsection \<open>Constants and conversions\<close>

lemma scast_consts [simp]:
  "scast HOLD_TIME_CLEAR = (1500 :: c_ulong)"
  "scast HOLD_TIME_SAVE = (1000 :: c_ulong)"
  "scast BLINK_DELAY = (100 :: c_ulong)"
  by (simp_all add: HOLD_TIME_CLEAR_def HOLD_TIME_SAVE_def BLINK_DELAY_def)

lemma HIGH_neq_LOW [simp]: "HIGH \<noteq> LOW" "LOW \<noteq> HIGH"
  by (simp_all add: HIGH_def LOW_def)

lemma OUTPUTS_nth [simp]:
  "OUTPUTS ! 0 = 3" "OUTPUTS ! Suc 0 = 5" "OUTPUTS ! 1 = 5" "OUTPUTS ! 2 = 6"
  by (simp_all add: OUTPUTS_def)

lemma INPUTS_nth [simp]:
  "INPUTS ! 0 = 10" "INPUTS ! Suc 0 = 11" "INPUTS ! 1 = 11" "INPUTS ! 2 = 12"
  by (simp_all add: INPUTS_def)

lemma lt3: "i < NUM_COLORS \<longleftrightarrow> i = 0 \<or> i = 1 \<or> i = 2"
  by (auto simp: NUM_COLORS_def)

lemma for_colors_unfold: "for_colors f s = f 2 (f 1 (f 0 s))"
  by (simp add: for_colors_def NUM_COLORS_def upt_rec numeral_2_eq_2)

lemma ucast_byte_id: "(ucast (ucast (v :: byte) :: c_int) :: byte) = v"
  by (simp add: ucast_up_ucast_id is_up)

lemma uint_eq_sint_byte:
  assumes "0 \<le> sint (v :: c_int)" "sint v \<le> 255"
  shows "uint v = sint v"
proof -
  have "uint v = take_bit 16 (sint v)"
    by (simp add: uint_sint)
  also have "\<dots> = sint v"
    using assms by (simp add: take_bit_int_eq_self)
  finally show ?thesis .
qed

lemma sint_eq_uint_byte:
  assumes "uint (v :: c_int) \<le> 255"
  shows "sint v = uint v"
proof -
  have "(0::int) \<le> uint v"
    by simp
  then have "- 32768 \<le> uint v"
    by linarith
  with assms show ?thesis
    by (simp add: sint_uint signed_take_bit_int_eq_self_iff)
qed

lemma sint_ucast_byte: "sint (ucast (b :: byte) :: c_int) = uint b"
proof -
  have "uint (ucast b :: c_int) = uint b"
    by (simp add: uint_up_ucast is_up)
  moreover have "uint b < 256"
    using uint_bounded [of b] by simp
  ultimately show ?thesis
    by (simp add: sint_eq_uint_byte)
qed

lemma ucast_int_id:
  assumes "0 \<le> sint (v :: c_int)" "sint v \<le> 255"
  shows "(ucast (ucast v :: byte) :: c_int) = v"
proof -
  have u: "uint v = sint v"
    using assms by (rule uint_eq_sint_byte)
  have "uint (ucast (ucast v :: byte) :: c_int) = uint (ucast v :: byte)"
    by (simp add: uint_up_ucast is_up)
  also have "\<dots> = take_bit 8 (uint v)"
    by (simp add: unsigned_ucast_eq)
  also have "\<dots> = uint v"
    using assms u by (simp add: take_bit_int_eq_self)
  finally show ?thesis
    by (simp add: word_uint_eq_iff)
qed

lemma sint_255_iff: "(v :: c_int) = 255 \<longleftrightarrow> sint v = 255"
proof
  assume "v = 255"
  then show "sint v = 255" by simp
next
  assume "sint v = 255"
  then have "uint v = 255"
    using uint_eq_sint_byte [of v] by simp
  then show "v = 255"
    by (simp add: word_uint_eq_iff)
qed

lemma sint_increment:
  assumes "0 \<le> sint v" "sint v \<le> 255"
  shows "sint (increment v) = (if sint v = 255 then 0 else min (sint v + 16) 255)"
proof (cases "v = 255")
  case True
  then show ?thesis
    by (simp add: increment_def min_int_def word_sless_alt)
next
  case False
  then have ne: "sint v \<noteq> 255"
    by (simp add: sint_255_iff)
  have "sint (v + 16) = signed_take_bit 15 (sint v + 16)"
    by (simp add: sint_word_add)
  also have "\<dots> = sint v + 16"
    using assms by (simp add: signed_take_bit_int_eq_self)
  finally have "sint (v + 16) = sint v + 16" .
  with False ne show ?thesis
    by (simp add: increment_def min_int_def word_sless_alt PWM_INCREMENT_def min_def)
qed

subsection \<open>The channels do not interfere in the first loop\<close>

lemma view_simps [simp]:
  "val (view s i) = Values s i"
  "lastval (view s i) = lastValues s i"
  "cur (view s i) = curButtonStates s i"
  "lastb (view s i) = lastButtonStates s i"
  "held (view s i) = buttonsHeld s i"
  "ldt (view s i) = lastDebounceTimes s i"
  by (simp_all add: view_def)

lemma view_check_channel_same:
  "view (check_channel ts pins i s) i = chan_step ts (digitalRead pins (INPUTS ! i)) (view s i)"
  by (auto simp: check_channel_def chan_step_def view_def Let_def debounceDelay_def)

lemma view_check_channel_other:
  "j \<noteq> i \<Longrightarrow> view (check_channel ts pins i s) j = view s j"
  by (simp add: check_channel_def view_def Let_def)

lemma check_channel_rest:
  "eeprom (check_channel ts pins i s) = eeprom s"
  "trace (check_channel ts pins i s) = trace s"
  "lastValues (check_channel ts pins i s) = lastValues s"
  by (simp_all add: check_channel_def Let_def)

lemma view_check_channels:
  "i < NUM_COLORS \<Longrightarrow>
   view (check_channels ts pins s) i = chan_step ts (digitalRead pins (INPUTS ! i)) (view s i)"
  by (auto simp: lt3 check_channels_def for_colors_unfold view_check_channel_same
      view_check_channel_other)

lemma check_channels_rest:
  "eeprom (check_channels ts pins s) = eeprom s"
  "trace (check_channels ts pins s) = trace s"
  "lastValues (check_channels ts pins s) = lastValues s"
  by (simp_all add: check_channels_def for_colors_unfold check_channel_rest)

lemma Values_check_channels:
  assumes "i < NUM_COLORS"
  shows "Values (check_channels ts pins s) i =
         val (chan_step ts (digitalRead pins (INPUTS ! i)) (view s i))"
proof -
  have "Values (check_channels ts pins s) i = val (view (check_channels ts pins s) i)"
    by simp
  then show ?thesis
    by (simp only: view_check_channels [OF assms])
qed

subsection \<open>The second loop, the save gesture, the EEPROM\<close>

lemma view_apply_channel:
  "view (apply_channel i s) j = (if j = i then (view s j)\<lparr>lastval := Values s j\<rparr> else view s j)"
  by (simp add: apply_channel_def view_def emit_def)

lemma apply_channel_rest:
  "eeprom (apply_channel i s) = eeprom s"
  "trace (apply_channel i s) =
     trace s @ (if Values s i \<noteq> lastValues s i then [AnalogWrite (OUTPUTS ! i) (Values s i)] else [])"
  "Values (apply_channel i s) = Values s"
  "j \<noteq> i \<Longrightarrow> lastValues (apply_channel i s) j = lastValues s j"
  by (simp_all add: apply_channel_def emit_def)

lemma view_apply_state:
  "i < NUM_COLORS \<Longrightarrow> view (apply_state s) i = (view s i)\<lparr>lastval := Values s i\<rparr>"
  by (auto simp: lt3 apply_state_def for_colors_unfold view_apply_channel apply_channel_rest)

lemma apply_state_rest:
  "eeprom (apply_state s) = eeprom s"
  "Values (apply_state s) = Values s"
  "curButtonStates (apply_state s) = curButtonStates s"
  "lastDebounceTimes (apply_state s) = lastDebounceTimes s"
  by (simp_all add: apply_state_def for_colors_unfold apply_channel_rest apply_channel_def emit_def)

lemma trace_apply_state: "trace (apply_state s) = trace s @ apply_events s"
  by (simp add: apply_state_def for_colors_unfold apply_channel_rest apply_events_def
      NUM_COLORS_def upt_rec numeral_2_eq_2)

lemma save_condition_apply_state [simp]:
  "save_condition ts (apply_state s) = save_condition ts s"
  by (simp add: save_condition_def apply_state_rest)

lemma all_off_eq:
  "all_off s = s\<lparr>trace := trace s @ [AnalogWrite 3 0, AnalogWrite 5 0, AnalogWrite 6 0]\<rparr>"
  by (simp add: all_off_def for_colors_unfold emit_def)

lemma all_on_eq:
  "all_on s =
     s\<lparr>trace := trace s @
        [AnalogWrite 3 (Values s 0), AnalogWrite 5 (Values s 1), AnalogWrite 6 (Values s 2)]\<rparr>"
  by (simp add: all_on_def for_colors_unfold emit_def)

lemma SaveState_eq:
  "SaveState s =
     s\<lparr>eeprom := (eeprom s)(0 := ucast (Values s 0), 1 := ucast (Values s 1),
                             2 := ucast (Values s 2)),
       trace := trace s @ store_events s\<rparr>"
  by (simp add: SaveState_def for_colors_unfold emit_def EEPROM_DATA_OFFSET_def store_events_def)

lemma save_gesture_eq:
  "save_gesture s =
     s\<lparr>buttonsHeld := (buttonsHeld s)(2 := 1, 1 := 1, 0 := 1),
       eeprom := (eeprom s)(0 := ucast (Values s 0), 1 := ucast (Values s 1),
                             2 := ucast (Values s 2)),
       trace := trace s @ blink_events s @ store_events s\<rparr>"
  by (simp add: save_gesture_def Let_def all_off_eq all_on_eq SaveState_eq emit_def
      blink_events_def store_events_def)

lemma LoadState_eq:
  "LoadState s =
     s\<lparr>lastValues := (lastValues s)(0 := ucast (eeprom s 0), 1 := ucast (eeprom s 1),
                                     2 := ucast (eeprom s 2)),
       Values := (Values s)(0 := ucast (eeprom s 0), 1 := ucast (eeprom s 1),
                             2 := ucast (eeprom s 2))\<rparr>"
  by (simp add: LoadState_def for_colors_unfold Let_def EEPROM_DATA_OFFSET_def)

lemma setup_sketch_eq:
  "setup_sketch s =
     s\<lparr>lastValues := (lastValues s)(0 := ucast (eeprom s 0), 1 := ucast (eeprom s 1),
                                     2 := ucast (eeprom s 2)),
       Values := (Values s)(0 := ucast (eeprom s 0), 1 := ucast (eeprom s 1),
                             2 := ucast (eeprom s 2)),
       trace := trace s @
         [PinMode 10 INPUT, PinMode 3 OUTPUT, PinMode 11 INPUT, PinMode 5 OUTPUT,
          PinMode 12 INPUT, PinMode 6 OUTPUT,
          AnalogWrite 3 0, AnalogWrite 5 0, AnalogWrite 6 0,
          AnalogWrite 3 (ucast (eeprom s 0)), AnalogWrite 5 (ucast (eeprom s 1)),
          AnalogWrite 6 (ucast (eeprom s 2))]\<rparr>"
  by (simp add: setup_sketch_def for_colors_unfold Let_def LoadState_eq emit_def)

lemma view_save_gesture:
  "i < NUM_COLORS \<Longrightarrow> view (save_gesture s) i = (view s i)\<lparr>held := 1\<rparr>"
  by (auto simp: lt3 save_gesture_eq view_def)

subsection \<open>One pass of the loop, channel by channel\<close>

lemma view_loop:
  "i < NUM_COLORS \<Longrightarrow>
   view (loop ts pins s) i =
     (chan_step ts (digitalRead pins (INPUTS ! i)) (view s i))
       \<lparr>lastval := val (chan_step ts (digitalRead pins (INPUTS ! i)) (view s i)),
        held := (if save_condition ts (check_channels ts pins s) then 1
                 else held (chan_step ts (digitalRead pins (INPUTS ! i)) (view s i)))\<rparr>"
  by (simp add: loop_def Let_def view_save_gesture view_apply_state view_check_channels
      Values_check_channels)

lemma loop_fields:
  assumes "i < NUM_COLORS"
  shows "Values (loop ts pins s) i = val (chan_step ts (digitalRead pins (INPUTS ! i)) (view s i))"
    and "lastValues (loop ts pins s) i = val (chan_step ts (digitalRead pins (INPUTS ! i)) (view s i))"
    and "curButtonStates (loop ts pins s) i = cur (chan_step ts (digitalRead pins (INPUTS ! i)) (view s i))"
    and "lastButtonStates (loop ts pins s) i = digitalRead pins (INPUTS ! i)"
    and "lastDebounceTimes (loop ts pins s) i = ldt (chan_step ts (digitalRead pins (INPUTS ! i)) (view s i))"
    and "buttonsHeld (loop ts pins s) i =
          (if save_condition ts (check_channels ts pins s) then 1
           else held (chan_step ts (digitalRead pins (INPUTS ! i)) (view s i)))"
proof -
  let ?c = "chan_step ts (digitalRead pins (INPUTS ! i)) (view s i)"
  have v: "view (loop ts pins s) i =
      ?c\<lparr>lastval := val ?c,
         held := (if save_condition ts (check_channels ts pins s) then 1 else held ?c)\<rparr>"
    using assms by (rule view_loop)
  show "Values (loop ts pins s) i = val ?c"
    using arg_cong [OF v, of val] by simp
  show "lastValues (loop ts pins s) i = val ?c"
    using arg_cong [OF v, of lastval] by simp
  show "curButtonStates (loop ts pins s) i = cur ?c"
    using arg_cong [OF v, of cur] by simp
  show "lastButtonStates (loop ts pins s) i = digitalRead pins (INPUTS ! i)"
    using arg_cong [OF v, of lastb] by (simp add: chan_step_def Let_def)
  show "lastDebounceTimes (loop ts pins s) i = ldt ?c"
    using arg_cong [OF v, of ldt] by simp
  show "buttonsHeld (loop ts pins s) i =
          (if save_condition ts (check_channels ts pins s) then 1 else held ?c)"
    using arg_cong [OF v, of held] by simp
qed

lemma trace_loop:
  "trace (loop ts pins s) =
     trace s @ apply_events (check_channels ts pins s) @
       (if save_condition ts (check_channels ts pins s)
        then blink_events (check_channels ts pins s) @ store_events (check_channels ts pins s)
        else [])"
  by (simp add: loop_def Let_def save_gesture_eq trace_apply_state check_channels_rest
      blink_events_def store_events_def apply_state_rest)

lemma eeprom_loop:
  "eeprom (loop ts pins s) =
     (if save_condition ts (check_channels ts pins s)
      then (eeprom s)(0 := ucast (Values (check_channels ts pins s) 0),
                      1 := ucast (Values (check_channels ts pins s) 1),
                      2 := ucast (Values (check_channels ts pins s) 2))
      else eeprom s)"
  by (simp add: loop_def Let_def save_gesture_eq check_channels_rest apply_state_rest)

subsection \<open>Runs\<close>

lemma run_append: "run s (xs @ ys) = run (run s xs) ys"
  by (induction xs arbitrary: s) simp_all

lemma run_snoc: "run s (xs @ [x]) = loop (fst x) (snd x) (run s xs)"
  by (simp add: run_append)

lemma check_channels_fields:
  assumes "i < NUM_COLORS"
  shows "curButtonStates (check_channels ts pins s) i =
           cur (chan_step ts (digitalRead pins (INPUTS ! i)) (view s i))"
    and "lastDebounceTimes (check_channels ts pins s) i =
           ldt (chan_step ts (digitalRead pins (INPUTS ! i)) (view s i))"
proof -
  note v = view_check_channels [OF assms, of ts pins s]
  show "curButtonStates (check_channels ts pins s) i =
           cur (chan_step ts (digitalRead pins (INPUTS ! i)) (view s i))"
    using arg_cong [OF v, of cur] by simp
  show "lastDebounceTimes (check_channels ts pins s) i =
           ldt (chan_step ts (digitalRead pins (INPUTS ! i)) (view s i))"
    using arg_cong [OF v, of ldt] by simp
qed

lemma save_condition_cur:
  "save_condition ts c \<Longrightarrow> i < NUM_COLORS \<Longrightarrow> curButtonStates c i = HIGH"
  by (auto simp: save_condition_def lt3)

subsection \<open>The output writes of a pass\<close>

lemma apply_events_eq:
  "apply_events c =
     (if Values c 0 \<noteq> lastValues c 0 then [AnalogWrite 3 (Values c 0)] else []) @
     (if Values c 1 \<noteq> lastValues c 1 then [AnalogWrite 5 (Values c 1)] else []) @
     (if Values c 2 \<noteq> lastValues c 2 then [AnalogWrite 6 (Values c 2)] else [])"
  by (simp add: apply_events_def NUM_COLORS_def upt_rec numeral_2_eq_2 OUTPUTS_def)

lemma write_in_apply_events:
  "i < NUM_COLORS \<Longrightarrow>
   AnalogWrite (OUTPUTS ! i) v \<in> set (apply_events c) \<longleftrightarrow>
     Values c i \<noteq> lastValues c i \<and> v = Values c i"
  by (auto simp: lt3 apply_events_eq)

lemma tick_events_eq:
  "tick_events ts pins s =
     apply_events (check_channels ts pins s) @
       (if save_condition ts (check_channels ts pins s)
        then blink_events (check_channels ts pins s) @ store_events (check_channels ts pins s)
        else [])"
  by (simp add: tick_events_def trace_loop)

lemma last_written_append:
  "last_written p (xs @ ys) =
     (case last_written p ys of Some v \<Rightarrow> Some v | None \<Rightarrow> last_written p xs)"
  by (induction xs) (auto split: option.splits)

lemma last_written_apply_events:
  "i < NUM_COLORS \<Longrightarrow>
   last_written (OUTPUTS ! i) (apply_events c) =
     (if Values c i \<noteq> lastValues c i then Some (Values c i) else None)"
  by (auto simp: lt3 apply_events_eq)

lemma last_written_blink:
  "i < NUM_COLORS \<Longrightarrow>
   last_written (OUTPUTS ! i) (blink_events c @ store_events c) = Some (Values c i)"
  by (auto simp: lt3 blink_events_def store_events_def)

lemma written_ok_start: "written_ok (setup_sketch s)"
  by (auto simp: written_ok_def lt3 setup_sketch_eq last_written_append)

lemma written_ok_loop:
  assumes "written_ok s"
  shows "written_ok (loop ts pins s)"
  unfolding written_ok_def
proof (intro allI impI)
  fix i assume i: "i < NUM_COLORS"
  let ?c = "check_channels ts pins s"
  have a: "last_written (OUTPUTS ! i) (trace s) = Some (lastValues s i)"
    using assms i by (simp add: written_ok_def)
  have l: "lastValues (loop ts pins s) i = Values ?c i"
    using i by (simp add: loop_fields Values_check_channels)
  show "last_written (OUTPUTS ! i) (trace (loop ts pins s)) = Some (lastValues (loop ts pins s) i)"
    using i a l last_written_blink [OF i, of ?c]
    by (simp add: trace_loop last_written_append last_written_apply_events check_channels_rest
        del: append_assoc split: option.splits)
qed

lemma written_ok_run: "written_ok s \<Longrightarrow> written_ok (run s ins)"
  by (induction ins arbitrary: s) (simp_all add: written_ok_loop)

lemma applied_after_loop:
  "i < NUM_COLORS \<Longrightarrow> lastValues (loop ts pins s) i = Values (loop ts pins s) i"
  by (simp add: loop_fields)

lemma applied_after_start:
  "i < NUM_COLORS \<Longrightarrow> lastValues (setup_sketch s) i = Values (setup_sketch s) i"
  by (auto simp: lt3 setup_sketch_eq)

lemma applied_inv:
  assumes "i < NUM_COLORS"
  shows "lastValues (run (setup_sketch s) ins) i = Values (run (setup_sketch s) ins) i"
proof (cases ins rule: rev_cases)
  case Nil
  then show ?thesis
    using assms by (simp add: applied_after_start)
next
  case (snoc ys y)
  then show ?thesis
    using assms by (simp add: run_snoc applied_after_loop)
qed

subsection \<open>A channel whose raw input agrees with its stable state\<close>

lemma stable_step:
  assumes "i < NUM_COLORS" and "digitalRead pins (INPUTS ! i) = curButtonStates s i"
  shows "curButtonStates (loop ts pins s) i = curButtonStates s i"
    and "curButtonStates s i = LOW \<Longrightarrow> Values (loop ts pins s) i = Values s i"
    and "curButtonStates s i = LOW \<Longrightarrow> buttonsHeld (loop ts pins s) i = buttonsHeld s i"
proof -
  show c: "curButtonStates (loop ts pins s) i = curButtonStates s i"
    using assms by (simp add: loop_fields chan_step_def Let_def)
  show "Values (loop ts pins s) i = Values s i" if "curButtonStates s i = LOW"
    using assms that by (simp add: loop_fields chan_step_def Let_def)
  show "buttonsHeld (loop ts pins s) i = buttonsHeld s i" if "curButtonStates s i = LOW"
  proof -
    have "curButtonStates (check_channels ts pins s) i = LOW"
      using assms that by (simp add: check_channels_fields chan_step_def Let_def)
    then have "\<not> save_condition ts (check_channels ts pins s)"
      using save_condition_cur [OF _ assms(1)] by fastforce
    then show ?thesis
      using assms that by (simp add: loop_fields chan_step_def Let_def)
  qed
qed

lemma stable_run:
  assumes "i < NUM_COLORS"
    and "\<forall>x\<in>set G. digitalRead (snd x) (INPUTS ! i) = curButtonStates s i"
  shows "curButtonStates (run s G) i = curButtonStates s i
       \<and> (curButtonStates s i = LOW \<longrightarrow>
            Values (run s G) i = Values s i \<and> buttonsHeld (run s G) i = buttonsHeld s i)"
  using assms(2)
proof (induction G arbitrary: s)
  case Nil
  then show ?case by simp
next
  case (Cons x G)
  have r: "digitalRead (snd x) (INPUTS ! i) = curButtonStates s i"
    using Cons.prems by simp
  note st = stable_step [OF assms(1) r, of "fst x"]
  have "\<forall>y\<in>set G. digitalRead (snd y) (INPUTS ! i) = curButtonStates (loop (fst x) (snd x) s) i"
    using Cons.prems st(1) by simp
  from Cons.IH [OF this] st show ?case
    by simp
qed

subsection \<open>The range of the brightness\<close>

lemma sint_ucast_byte_range:
  "0 \<le> sint (ucast (b :: byte) :: c_int) \<and> sint (ucast b :: c_int) \<le> 255"
  using uint_bounded [of b] by (simp add: sint_ucast_byte)

lemma loop_value_cases:
  assumes "i < NUM_COLORS"
  shows "Values (loop ts pins s) i = Values s i
       \<or> Values (loop ts pins s) i = increment (Values s i)
       \<or> Values (loop ts pins s) i = 0"
  using assms by (simp add: loop_fields chan_step_def Let_def)

lemma byte_ok_start: "byte_ok (setup_sketch s)"
  by (auto simp: byte_ok_def lt3 setup_sketch_eq sint_ucast_byte_range)

lemma byte_ok_loop:
  assumes "byte_ok s"
  shows "byte_ok (loop ts pins s)"
  unfolding byte_ok_def
proof (intro allI impI)
  fix i assume i: "i < NUM_COLORS"
  have b: "0 \<le> sint (Values s i)" "sint (Values s i) \<le> 255"
    using assms i by (simp_all add: byte_ok_def)
  from loop_value_cases [OF i, of ts pins s] sint_increment [OF b] b
  show "0 \<le> sint (Values (loop ts pins s) i) \<and> sint (Values (loop ts pins s) i) \<le> 255"
    by (auto split: if_splits)
qed

lemma byte_ok_run: "byte_ok s \<Longrightarrow> byte_ok (run s ins)"
  by (induction ins arbitrary: s) (simp_all add: byte_ok_loop)

subsection \<open>A held button\<close>

lemma hold_fires:
  assumes "i < NUM_COLORS"
    and "curButtonStates (loop ts pins s) i = HIGH"
    and "ts - lastDebounceTimes (loop ts pins s) i > 1500"
  shows "Values (loop ts pins s) i = 0 \<and> buttonsHeld (loop ts pins s) i = 1"
  using assms by (simp add: loop_fields chan_step_def Let_def split: if_splits)

lemma held_step:
  assumes "i < NUM_COLORS"
    and "curButtonStates s i = HIGH" and "buttonsHeld s i \<noteq> 0" and "Values s i = 0"
  shows "Values (loop ts pins s) i = 0"
    and "curButtonStates (loop ts pins s) i = HIGH \<Longrightarrow> buttonsHeld (loop ts pins s) i \<noteq> 0"
  using assms by (auto simp: loop_fields chan_step_def Let_def split: if_splits)

lemma held_run:
  assumes "i < NUM_COLORS"
  shows "curButtonStates s i = HIGH \<Longrightarrow> buttonsHeld s i \<noteq> 0 \<Longrightarrow> Values s i = 0 \<Longrightarrow>
         \<forall>k<length ins. curButtonStates (run s (take k ins)) i = HIGH \<Longrightarrow>
         Values (run s ins) i = 0"
proof (induction ins arbitrary: s)
  case Nil
  then show ?case by simp
next
  case (Cons x xs)
  note st = held_step [OF assms Cons.prems(1,2,3), of "fst x" "snd x"]
  show ?case
  proof (cases xs)
    case Nil
    then show ?thesis
      using st(1) by simp
  next
    case (Cons y ys)
    have c: "curButtonStates (loop (fst x) (snd x) s) i = HIGH"
      using Cons.prems(4) [rule_format, of 1] Cons by simp
    have "\<forall>k<length xs. curButtonStates (run (loop (fst x) (snd x) s) (take k xs)) i = HIGH"
    proof (intro allI impI)
      fix k assume "k < length xs"
      then show "curButtonStates (run (loop (fst x) (snd x) s) (take k xs)) i = HIGH"
        using Cons.prems(4) [rule_format, of "Suc k"] by simp
    qed
    from Cons.IH [OF c st(2) [OF c] st(1) this] show ?thesis
      by simp
  qed
qed

subsection \<open>The debounce window\<close>

lemma quiet_step:
  assumes "i < NUM_COLORS"
    and "digitalRead pins (INPUTS ! i) \<noteq> lastButtonStates s i \<or> ts - lastDebounceTimes s i \<le> 30"
  shows "curButtonStates (loop ts pins s) i = curButtonStates s i"
    and "lastDebounceTimes (loop ts pins s) i =
          (if digitalRead pins (INPUTS ! i) \<noteq> lastButtonStates s i then ts
           else lastDebounceTimes s i)"
  using assms by (auto simp: loop_fields chan_step_def Let_def)

lemma window_elapsed:
  fixes ts t0 l :: c_ulong
  assumes "l - t0 \<le> ts - t0" and "ts - t0 < 30"
  shows "ts - l \<le> 30"
proof -
  have "ts - l = (ts - t0) - (l - t0)"
    by simp
  also have "\<dots> \<le> ts - t0"
    using assms(1) by (rule word_sub_le)
  finally show ?thesis
    using assms(2) by simp
qed

lemma window_run:
  assumes "i < NUM_COLORS"
  shows "sorted (map (\<lambda>x. fst x - t0) F) \<Longrightarrow> \<forall>x\<in>set F. fst x - t0 < 30 \<Longrightarrow>
         \<forall>x\<in>set F. lastDebounceTimes s i - t0 \<le> fst x - t0 \<Longrightarrow>
         curButtonStates (run s F) i = curButtonStates s i"
proof (induction F arbitrary: s)
  case Nil
  then show ?case by simp
next
  case (Cons x F)
  have e: "fst x - lastDebounceTimes s i \<le> 30"
    using Cons.prems(2,3) window_elapsed [of "lastDebounceTimes s i" t0 "fst x"] by simp
  note q = quiet_step [OF assms disjI2, OF e, of "snd x"]
  have "\<forall>y\<in>set F. lastDebounceTimes (loop (fst x) (snd x) s) i - t0 \<le> fst y - t0"
    using Cons.prems(1,3) by (simp add: q(2))
  with Cons.IH [of "loop (fst x) (snd x) s"] Cons.prems(1,2) q(1) show ?case
    by simp
qed

subsection \<open>A tap\<close>

lemma released_step:
  assumes "i < NUM_COLORS"
    and "curButtonStates s i = LOW" and "curButtonStates (loop ts pins s) i = LOW"
  shows "Values (loop ts pins s) i = Values s i"
  using assms by (auto simp: loop_fields chan_step_def Let_def split: if_splits)

lemma released_run:
  assumes "i < NUM_COLORS"
  shows "curButtonStates s i = LOW \<Longrightarrow> stays i LOW s A \<Longrightarrow>
         Values (run s A) i = Values s i \<and> curButtonStates (run s A) i = LOW"
proof (induction A arbitrary: s)
  case Nil
  then show ?case by simp
next
  case (Cons x A)
  have c: "curButtonStates (loop (fst x) (snd x) s) i = LOW"
    and r: "stays i LOW (loop (fst x) (snd x) s) A"
    using Cons.prems(2) by simp_all
  from Cons.IH [OF c r] released_step [OF assms Cons.prems(1) c] show ?case
    by simp
qed

lemma press_commit_step:
  assumes "i < NUM_COLORS"
    and "curButtonStates s i = LOW" and "curButtonStates (loop ts pins s) i = HIGH"
  shows "buttonsHeld (loop ts pins s) i = 0 \<Longrightarrow> Values (loop ts pins s) i = Values s i"
    and "\<not> save_condition ts (check_channels ts pins s) \<Longrightarrow>
         ts - lastDebounceTimes (loop ts pins s) i \<le> 1500 \<Longrightarrow>
         buttonsHeld (loop ts pins s) i = 0"
  using assms by (auto simp: loop_fields chan_step_def Let_def split: if_splits)

lemma pressed_step:
  assumes "i < NUM_COLORS"
    and "curButtonStates s i = HIGH" and "curButtonStates (loop ts pins s) i = HIGH"
  shows "buttonsHeld (loop ts pins s) i = 0 \<Longrightarrow>
         buttonsHeld s i = 0 \<and> Values (loop ts pins s) i = Values s i"
    and "buttonsHeld s i = 0 \<Longrightarrow> \<not> save_condition ts (check_channels ts pins s) \<Longrightarrow>
         ts - lastDebounceTimes (loop ts pins s) i \<le> 1500 \<Longrightarrow>
         buttonsHeld (loop ts pins s) i = 0"
  using assms by (auto simp: loop_fields chan_step_def Let_def split: if_splits)

lemma pressed_run:
  assumes "i < NUM_COLORS"
  shows "curButtonStates s i = HIGH \<Longrightarrow> stays i HIGH s B \<Longrightarrow>
         curButtonStates (run s B) i = HIGH
         \<and> (buttonsHeld (run s B) i = 0 \<longrightarrow>
              buttonsHeld s i = 0 \<and> Values (run s B) i = Values s i)
         \<and> (buttonsHeld s i = 0 \<and> save_free s B \<and> fresh i s B \<longrightarrow>
              buttonsHeld (run s B) i = 0)"
proof (induction B arbitrary: s)
  case Nil
  then show ?case by simp
next
  case (Cons x B)
  let ?t = "loop (fst x) (snd x) s"
  have c: "curButtonStates ?t i = HIGH" and r: "stays i HIGH ?t B"
    using Cons.prems(2) by simp_all
  note st = pressed_step [OF assms Cons.prems(1) c]
  note ih = Cons.IH [OF c r]
  have 1: "curButtonStates (run s (x # B)) i = HIGH"
    using ih by simp
  have 2: "buttonsHeld s i = 0 \<and> Values (run s (x # B)) i = Values s i"
    if "buttonsHeld (run s (x # B)) i = 0"
  proof -
    from that have "buttonsHeld (run ?t B) i = 0"
      by simp
    with ih have "buttonsHeld ?t i = 0" and v: "Values (run ?t B) i = Values ?t i"
      by simp_all
    from st(1) [OF this(1)] v show ?thesis
      by simp
  qed
  have 3: "buttonsHeld (run s (x # B)) i = 0"
    if "buttonsHeld s i = 0 \<and> save_free s (x # B) \<and> fresh i s (x # B)"
  proof -
    from that have h: "buttonsHeld s i = 0"
      and n: "\<not> save_condition (fst x) (check_channels (fst x) (snd x) s)"
      and f: "fst x - lastDebounceTimes ?t i \<le> 1500"
      and rest: "save_free ?t B" "fresh i ?t B"
      by simp_all
    from st(2) [OF h n f] rest ih show ?thesis
      by simp
  qed
  from 1 2 3 show ?case
    by blast
qed

lemma release_commit_step:
  assumes "i < NUM_COLORS"
    and "curButtonStates s i = HIGH" and "curButtonStates (loop ts pins s) i = LOW"
    and "buttonsHeld s i = 0"
  shows "Values (loop ts pins s) i = increment (Values s i)"
  using assms by (auto simp: loop_fields chan_step_def Let_def split: if_splits)

lemma undisturbed_step:
  assumes "j < NUM_COLORS"
    and "\<not> (curButtonStates s j \<noteq> LOW \<and> curButtonStates (loop ts pins s) j = LOW)"
    and "\<not> (curButtonStates (loop ts pins s) j = HIGH
          \<and> 1500 < ts - lastDebounceTimes (loop ts pins s) j)"
  shows "Values (loop ts pins s) j = Values s j"
  using assms by (auto simp: loop_fields chan_step_def Let_def split: if_splits)

lemma undisturbed_run:
  assumes "j < NUM_COLORS"
  shows "undisturbed j s xs \<Longrightarrow> Values (run s xs) j = Values s j"
proof (induction xs arbitrary: s)
  case Nil
  then show ?case by simp
next
  case (Cons x xs)
  from Cons.prems have u: "undisturbed j (loop (fst x) (snd x) s) xs"
    and v: "Values (loop (fst x) (snd x) s) j = Values s j"
    using undisturbed_step [OF assms, of s "fst x" "snd x"] by simp_all
  from Cons.IH [OF u] v show ?case
    by simp
qed

lemma tap_general:
  assumes "i < NUM_COLORS"
    and "curButtonStates s i = LOW" and "stays i LOW s A"
    and "a = run s A" and "b = loop (fst p) (snd p) a" and "curButtonStates b i = HIGH"
    and "stays i HIGH b B"
    and "c = run b B" and "d = loop (fst r) (snd r) c" and "curButtonStates d i = LOW"
    and "stays i LOW d C"
  shows "(save_free a (p # B) \<and> fresh i a (p # B) \<longrightarrow> buttonsHeld c i = 0)
       \<and> (buttonsHeld c i = 0 \<longrightarrow>
            Values (run s (A @ p # B @ r # C)) i = increment (Values s i))"
proof -
  have a: "Values a i = Values s i" "curButtonStates a i = LOW"
    using released_run [OF assms(1,2,3)] assms(4) by simp_all
  note b = press_commit_step [OF assms(1) a(2) assms(6) [unfolded assms(5)], folded assms(5)]
  have c: "curButtonStates c i = HIGH"
    "buttonsHeld c i = 0 \<longrightarrow> buttonsHeld b i = 0 \<and> Values c i = Values b i"
    "buttonsHeld b i = 0 \<and> save_free b B \<and> fresh i b B \<longrightarrow> buttonsHeld c i = 0"
    using pressed_run [OF assms(1,6,7)] assms(8) by simp_all
  have d: "buttonsHeld c i = 0 \<Longrightarrow> Values d i = increment (Values c i)"
    using release_commit_step [OF assms(1) c(1) assms(10) [unfolded assms(9)]] assms(9) by simp
  have e: "Values (run d C) i = Values d i"
    using released_run [OF assms(1,10,11)] by simp
  have f: "run s (A @ p # B @ r # C) = run d C"
    by (simp add: run_append assms(4,5,8,9))
  have 1: "buttonsHeld c i = 0" if "save_free a (p # B) \<and> fresh i a (p # B)"
  proof -
    from that have n: "\<not> save_condition (fst p) (check_channels (fst p) (snd p) a)"
      and f: "fst p - lastDebounceTimes b i \<le> 1500"
      and rest: "save_free b B" "fresh i b B"
      by (simp_all add: assms(5))
    from b(2) [OF n f] rest c(3) show ?thesis
      by simp
  qed
  have 2: "Values (run s (A @ p # B @ r # C)) i = increment (Values s i)" if "buttonsHeld c i = 0"
  proof -
    from that c(2) have hb: "buttonsHeld b i = 0" and vc: "Values c i = Values b i"
      by simp_all
    from b(1) [OF hb] have "Values b i = Values a i" .
    with d [OF that] vc a(1) e f show ?thesis
      by simp
  qed
  from 1 2 show ?thesis
    by blast
qed

section \<open>The claims\<close>

subsection \<open>Claim C1: a tap\<close>

text \<open>
  Claim C1, as amended. The brightness of channel \<open>i\<close> is a value from 0 to 255 and its
  stable state is released. It stays released over the passes \<open>A\<close> (whatever the raw
  readings), the pass \<open>p\<close> commits the press, the stable state stays pressed over the
  passes \<open>B\<close>, the pass \<open>r\<close> commits the release, and it stays released over the passes
  \<open>C\<close>. If, from the pass that commits the press to the last pass before the release is
  committed, no pass meets the condition of the save gesture and none comes more than
  1500 ms after the channel's last raw transition, then the held flag is clear when the
  release is committed. If the held flag is clear then, the brightness of channel \<open>i\<close>
  after the run is 0 if it was 255, and otherwise the smaller of the old brightness plus
  16 and 255. Every other channel on which no pass commits a release, and which no pass
  leaves pressed more than 1500 ms after its last raw transition, keeps its brightness.
\<close>

theorem tap_steps_brightness:
  assumes "i < NUM_COLORS"
    and "0 \<le> sint (Values s i)" and "sint (Values s i) \<le> 255"
    and "curButtonStates s i = LOW" and "stays i LOW s A"
    and "a = run s A" and "b = loop (fst p) (snd p) a" and "curButtonStates b i = HIGH"
    and "stays i HIGH b B"
    and "c = run b B" and "d = loop (fst r) (snd r) c" and "curButtonStates d i = LOW"
    and "stays i LOW d C"
  shows "(save_free a (p # B) \<and> fresh i a (p # B) \<longrightarrow> buttonsHeld c i = 0)
       \<and> (buttonsHeld c i = 0 \<longrightarrow>
            sint (Values (run s (A @ p # B @ r # C)) i) =
              (if sint (Values s i) = 255 then 0 else min (sint (Values s i) + 16) 255))
       \<and> (\<forall>j<NUM_COLORS. j \<noteq> i \<and> undisturbed j s (A @ p # B @ r # C) \<longrightarrow>
            Values (run s (A @ p # B @ r # C)) j = Values s j)"
proof -
  note t = tap_general [OF assms(1,4-13)]
  have "Values (run s (A @ p # B @ r # C)) j = Values s j"
    if "j < NUM_COLORS" and "undisturbed j s (A @ p # B @ r # C)" for j
    using that by (rule undisturbed_run)
  with t show ?thesis
    using sint_increment [OF assms(2,3)] by simp
qed

theorem tap_steps_brightness_witness:
  "(0::nat) < NUM_COLORS \<and> sint (Values boot16 0) = 16
   \<and> curButtonStates boot16 0 = LOW \<and> stays 0 LOW boot16 bounce_press
   \<and> curButtonStates (loop 51 red_down (run boot16 bounce_press)) 0 = HIGH
   \<and> stays 0 HIGH (loop 51 red_down (run boot16 bounce_press)) bounce_release
   \<and> curButtonStates
        (loop 111 none_down (run (loop 51 red_down (run boot16 bounce_press)) bounce_release)) 0
       = LOW
   \<and> save_free (run boot16 bounce_press) ((51, red_down) # bounce_release)
   \<and> fresh 0 (run boot16 bounce_press) ((51, red_down) # bounce_release)
   \<and> buttonsHeld (run (loop 51 red_down (run boot16 bounce_press)) bounce_release) 0 = 0
   \<and> undisturbed 1 boot16
        (bounce_press @ (51, red_down) # bounce_release @ (111, none_down) # bounce_after)
   \<and> sint (Values (run boot16
        (bounce_press @ (51, red_down) # bounce_release @ (111, none_down) # bounce_after)) 0)
       = 32
   \<and> Values (run boot16
        (bounce_press @ (51, red_down) # bounce_release @ (111, none_down) # bounce_after)) 1
       = Values boot16 1"
proof -
  let ?a = "run boot16 bounce_press"
  let ?b = "loop 51 red_down ?a"
  let ?c = "run ?b bounce_release"
  let ?d = "loop 111 none_down ?c"
  have h1: "(0::nat) < NUM_COLORS" and j: "(1::nat) < NUM_COLORS"
    by (simp_all add: NUM_COLORS_def)
  have h2: "0 \<le> sint (Values boot16 0)" "sint (Values boot16 0) \<le> 255"
    and v: "sint (Values boot16 0) = 16"
    by code_simp+
  have h3: "curButtonStates boot16 0 = LOW" "stays 0 LOW boot16 bounce_press"
    by code_simp+
  have h4: "curButtonStates (loop (fst (51, red_down)) (snd (51, red_down)) ?a) 0 = HIGH"
    by code_simp
  have h5: "stays 0 HIGH (loop (fst (51, red_down)) (snd (51, red_down)) ?a) bounce_release"
    by code_simp
  have h6: "curButtonStates (loop (fst (111, none_down)) (snd (111, none_down))
        (run (loop (fst (51, red_down)) (snd (51, red_down)) ?a) bounce_release)) 0 = LOW"
    by code_simp
  have h7: "stays 0 LOW (loop (fst (111, none_down)) (snd (111, none_down))
        (run (loop (fst (51, red_down)) (snd (51, red_down)) ?a) bounce_release)) bounce_after"
    by code_simp
  have t: "save_free ?a ((51, red_down) # bounce_release)"
    "fresh 0 ?a ((51, red_down) # bounce_release)"
    by code_simp+
  have u: "undisturbed 1 boot16
        (bounce_press @ (51, red_down) # bounce_release @ (111, none_down) # bounce_after)"
    by code_simp
  from tap_steps_brightness [OF h1 h2 h3 refl refl h4 h5 refl refl h6 h7] h1 j v h3 h4 h5 h6 t u
  show ?thesis
    by simp
qed

theorem tap_steps_counterexample:
  "Values boot240 1 = 240 \<and> curButtonStates boot240 1 = LOW \<and> buttonsHeld boot240 1 = 0
   \<and> save_free boot240 tap_green
   \<and> curButtonStates (run boot240 (take 2 tap_green)) 1 = HIGH
   \<and> buttonsHeld (run boot240 (take 3 tap_green)) 1 = 0
   \<and> curButtonStates (run boot240 tap_green) 1 = LOW
   \<and> Values (run boot240 tap_green) 1 = 255
   \<and> Values (run boot240 tap_green) 1 \<noteq> Values boot240 1 + 16
   \<and> Values (run boot240 tap_green) 1 \<noteq> 0
   \<and> Values boot16 0 = 16 \<and> curButtonStates boot16 0 = LOW \<and> buttonsHeld boot16 0 = 0
   \<and> save_free boot16 tap_red_green
   \<and> curButtonStates (run boot16 (take 2 tap_red_green)) 0 = HIGH
   \<and> buttonsHeld (run boot16 (take 3 tap_red_green)) 0 = 0
   \<and> curButtonStates (run boot16 tap_red_green) 0 = LOW
   \<and> Values (run boot16 tap_red_green) 0 = 32
   \<and> Values boot16 1 = 16
   \<and> Values (run boot16 tap_red_green) 1 \<noteq> Values boot16 1"
  by code_simp

subsection \<open>Claim C2: hold to clear\<close>

text \<open>
  Claim C2. If at the end of a pass the stable state of channel \<open>i\<close> is pressed and more
  than 1500 ms have gone by since its last raw transition, then that pass has set the
  brightness of channel \<open>i\<close> to 0 and its held flag to 1. From there on, for as long as
  the stable state has stayed pressed before each further pass, the brightness is still 0
  after that pass: also after the pass that commits the release, so the increment of a
  tap does not fire on it.
\<close>

theorem hold_clears_and_suppresses:
  assumes "i < NUM_COLORS"
    and "h = loop ts pins s"
    and "curButtonStates h i = HIGH" and "ts - lastDebounceTimes h i > 1500"
    and "\<forall>k<length ins. curButtonStates (run h (take k ins)) i = HIGH"
  shows "Values h i = 0 \<and> buttonsHeld h i = 1 \<and> Values (run h ins) i = 0"
proof -
  have a: "Values h i = 0 \<and> buttonsHeld h i = 1"
    using assms(1-4) hold_fires by simp
  then have "buttonsHeld h i \<noteq> 0"
    by simp
  from held_run [OF assms(1,3) this _ assms(5)] a show ?thesis
    by simp
qed

theorem hold_clears_and_suppresses_witness:
  "(0::nat) < NUM_COLORS
   \<and> curButtonStates (loop 1600 red_down red_pressed16) 0 = HIGH
   \<and> 1600 - lastDebounceTimes (loop 1600 red_down red_pressed16) 0 > 1500
   \<and> Values red_pressed16 0 = 16
   \<and> Values (loop 1600 red_down red_pressed16) 0 = 0
   \<and> buttonsHeld (loop 1600 red_down red_pressed16) 0 = 1
   \<and> curButtonStates (run (loop 1600 red_down red_pressed16)
         [(2000, none_down), (2031, none_down)]) 0 = LOW
   \<and> Values (run (loop 1600 red_down red_pressed16) [(2000, none_down), (2031, none_down)]) 0 = 0"
proof -
  let ?h = "loop 1600 red_down red_pressed16"
  let ?ins = "[(2000 :: c_ulong, none_down), (2031, none_down)]"
  have h1: "(0::nat) < NUM_COLORS"
    by (simp add: NUM_COLORS_def)
  have h3: "curButtonStates ?h 0 = HIGH" and h4: "1600 - lastDebounceTimes ?h 0 > 1500"
    by code_simp+
  have s1: "curButtonStates (run ?h [(2000, none_down)]) 0 = HIGH"
    by code_simp
  have h5: "\<forall>k<length ?ins. curButtonStates (run ?h (take k ?ins)) 0 = HIGH"
    using h3 s1 by (simp add: less_Suc_eq numeral_2_eq_2 all_conj_distrib)
  have e: "Values red_pressed16 0 = 16" "curButtonStates (run ?h ?ins) 0 = LOW"
    by code_simp+
  from hold_clears_and_suppresses [OF h1 refl h3 h4 h5] h1 h3 h4 e show ?thesis
    by simp
qed

subsection \<open>Claim C3: the save gesture\<close>

text \<open>
  Claim C3. On a pass after whose first loop the three stable states are pressed and each
  channel's time since its last raw transition exceeds 1000 ms, the events of the pass
  are those of the apply step followed by the blink (all outputs to 0, 100 ms, back to
  the brightness values, 100 ms, to 0, 100 ms, back to the brightness values) and then
  the three EEPROM writes at offsets 0, 1, 2 in that order; the held flag of every channel
  is 1 afterwards, the brightness values are untouched, and each EEPROM cell holds the low
  byte of the channel's brightness, which reads back as the brightness itself when that
  is a value from 0 to 255.
\<close>

theorem save_gesture_effect:
  assumes "c = check_channels ts pins s"
    and "curButtonStates c 0 = HIGH" and "curButtonStates c 1 = HIGH" and "curButtonStates c 2 = HIGH"
    and "ts - lastDebounceTimes c 0 > 1000" and "ts - lastDebounceTimes c 1 > 1000"
    and "ts - lastDebounceTimes c 2 > 1000"
  shows "trace (loop ts pins s) =
           trace s @ apply_events c @
           [AnalogWrite 3 0, AnalogWrite 5 0, AnalogWrite 6 0, Delay 100,
            AnalogWrite 3 (Values c 0), AnalogWrite 5 (Values c 1), AnalogWrite 6 (Values c 2),
            Delay 100,
            AnalogWrite 3 0, AnalogWrite 5 0, AnalogWrite 6 0, Delay 100,
            AnalogWrite 3 (Values c 0), AnalogWrite 5 (Values c 1), AnalogWrite 6 (Values c 2),
            EepromWrite 0 (ucast (Values c 0)), EepromWrite 1 (ucast (Values c 1)),
            EepromWrite 2 (ucast (Values c 2))]
       \<and> (\<forall>i<NUM_COLORS. buttonsHeld (loop ts pins s) i = 1
             \<and> Values (loop ts pins s) i = Values c i
             \<and> eeprom (loop ts pins s) i = ucast (Values c i)
             \<and> (0 \<le> sint (Values c i) \<and> sint (Values c i) \<le> 255 \<longrightarrow>
                  ucast (eeprom (loop ts pins s) i) = Values c i))"
proof -
  have sc: "save_condition ts (check_channels ts pins s)"
    using assms by (simp add: save_condition_def)
  have tr: "trace (loop ts pins s) = trace s @ apply_events c @ blink_events c @ store_events c"
    using sc assms(1) by (simp add: trace_loop)
  have fields: "buttonsHeld (loop ts pins s) i = 1 \<and> Values (loop ts pins s) i = Values c i
      \<and> eeprom (loop ts pins s) i = ucast (Values c i)" if "i < NUM_COLORS" for i
    using that sc assms(1)
    by (auto simp: lt3 loop_fields Values_check_channels eeprom_loop)
  show ?thesis
    using tr fields by (simp add: blink_events_def store_events_def ucast_int_id)
qed

theorem save_gesture_effect_witness:
  "curButtonStates (check_channels 1032 all_down all_pressed16) 0 = HIGH
   \<and> curButtonStates (check_channels 1032 all_down all_pressed16) 1 = HIGH
   \<and> curButtonStates (check_channels 1032 all_down all_pressed16) 2 = HIGH
   \<and> 1032 - lastDebounceTimes (check_channels 1032 all_down all_pressed16) 0 > 1000
   \<and> 1032 - lastDebounceTimes (check_channels 1032 all_down all_pressed16) 1 > 1000
   \<and> 1032 - lastDebounceTimes (check_channels 1032 all_down all_pressed16) 2 > 1000
   \<and> (2::nat) < NUM_COLORS
   \<and> 0 \<le> sint (Values (check_channels 1032 all_down all_pressed16) 2)
   \<and> sint (Values (check_channels 1032 all_down all_pressed16) 2) \<le> 255
   \<and> trace (loop 1032 all_down all_pressed16) =
       trace all_pressed16 @
       [AnalogWrite 3 0, AnalogWrite 5 0, AnalogWrite 6 0, Delay 100,
        AnalogWrite 3 16, AnalogWrite 5 16, AnalogWrite 6 16, Delay 100,
        AnalogWrite 3 0, AnalogWrite 5 0, AnalogWrite 6 0, Delay 100,
        AnalogWrite 3 16, AnalogWrite 5 16, AnalogWrite 6 16,
        EepromWrite 0 16, EepromWrite 1 16, EepromWrite 2 16]
   \<and> buttonsHeld (loop 1032 all_down all_pressed16) 2 = 1
   \<and> ucast (eeprom (loop 1032 all_down all_pressed16) 2) = (16 :: c_int)"
proof -
  let ?c = "check_channels 1032 all_down all_pressed16"
  have h: "curButtonStates ?c 0 = HIGH" "curButtonStates ?c 1 = HIGH" "curButtonStates ?c 2 = HIGH"
    "1032 - lastDebounceTimes ?c 0 > 1000" "1032 - lastDebounceTimes ?c 1 > 1000"
    "1032 - lastDebounceTimes ?c 2 > 1000"
    by code_simp+
  have v: "Values ?c 0 = 16" "Values ?c 1 = 16" "Values ?c 2 = 16" "apply_events ?c = []"
    by code_simp+
  have i: "(2::nat) < NUM_COLORS"
    by (simp add: NUM_COLORS_def)
  from save_gesture_effect [OF refl h] h v i show ?thesis
    by simp
qed

subsection \<open>Claim C4: the brightness values\<close>

text \<open>
  Claim C4, as amended. In every state reached from start-up by passes of the loop, the
  brightness of every channel is a value from 0 to 255, and one more pass leaves it as it
  is, or makes the step of a tap (from 255 to 0, otherwise plus 16 but no further than
  255), or resets it to 0.
\<close>

theorem brightness_range_and_steps:
  assumes "i < NUM_COLORS" and "s = run (setup_sketch (init e)) ins"
  shows "0 \<le> sint (Values s i) \<and> sint (Values s i) \<le> 255
       \<and> (Values (loop ts pins s) i = Values s i
          \<or> sint (Values (loop ts pins s) i) =
              (if sint (Values s i) = 255 then 0 else min (sint (Values s i) + 16) 255)
          \<or> Values (loop ts pins s) i = 0)"
proof -
  have "byte_ok s"
    using assms(2) by (simp add: byte_ok_run byte_ok_start)
  then have b: "0 \<le> sint (Values s i)" "sint (Values s i) \<le> 255"
    using assms(1) by (simp_all add: byte_ok_def)
  from loop_value_cases [OF assms(1), of ts pins s] sint_increment [OF b] b
  show ?thesis
    by auto
qed

theorem brightness_range_and_steps_witness:
  "(0::nat) < NUM_COLORS
   \<and> sint (Values red_releasing240 0) = 240
   \<and> sint (Values (loop 71 none_down red_releasing240) 0) = 255"
proof -
  have h1: "(0::nat) < NUM_COLORS"
    by (simp add: NUM_COLORS_def)
  have h2: "red_releasing240 = run (setup_sketch (init rom240)) [(0, red_down), (31, red_down), (40, none_down)]"
    by (simp add: red_releasing240_def boot240_def)
  have v: "Values red_releasing240 0 = 240" "Values (loop 71 none_down red_releasing240) 0 = 255"
    by code_simp+
  from brightness_range_and_steps [OF h1 h2, of 71 none_down] h1 v show ?thesis
    by simp
qed

theorem brightness_steps_counterexample:
  "\<not> (Values (loop 71 none_down red_releasing240) 0 = Values red_releasing240 0
      \<or> Values (loop 71 none_down red_releasing240) 0 =
          (if Values red_releasing240 0 = 255 then 0 else Values red_releasing240 0 + 16)
      \<or> Values (loop 71 none_down red_releasing240) 0 = 0)"
  by code_simp

subsection \<open>Claim C5: debouncing\<close>

text \<open>
  Claim C5. A pass at \<open>t0\<close> sees the raw level of channel \<open>i\<close> deviate from the last
  raw reading; \<open>F\<close> are the passes that follow up to and including the one that sees the
  raw level back, with timestamps in order and all less than 30 ms after \<open>t0\<close>. Whatever
  the raw readings in that window are, the stable state of the channel after it is the
  one before it; and it is still the same after any further passes \<open>G\<close> in which the raw
  level equals that stable state.
\<close>

theorem flicker_ignored:
  assumes "i < NUM_COLORS"
    and "digitalRead p0 (INPUTS ! i) \<noteq> lastButtonStates s i"
    and "sorted (map (\<lambda>x. fst x - t0) F)" and "\<forall>x\<in>set F. fst x - t0 < 30"
    and "\<forall>x\<in>set G. digitalRead (snd x) (INPUTS ! i) = curButtonStates s i"
  shows "curButtonStates (run s ((t0, p0) # F)) i = curButtonStates s i
       \<and> curButtonStates (run s (((t0, p0) # F) @ G)) i = curButtonStates s i"
proof -
  let ?s1 = "loop t0 p0 s"
  note q = quiet_step [OF assms(1) disjI1, OF assms(2), of t0]
  have "\<forall>x\<in>set F. lastDebounceTimes ?s1 i - t0 \<le> fst x - t0"
    using assms(2) by (simp add: q(2))
  from window_run [OF assms(1,3,4) this] q(1)
  have a: "curButtonStates (run ?s1 F) i = curButtonStates s i"
    by simp
  with assms(5) have "\<forall>x\<in>set G. digitalRead (snd x) (INPUTS ! i) = curButtonStates (run ?s1 F) i"
    by simp
  from stable_run [OF assms(1) this] a show ?thesis
    by (simp add: run_append)
qed

theorem flicker_ignored_witness:
  "(0::nat) < NUM_COLORS
   \<and> digitalRead red_down (INPUTS ! 0) \<noteq> lastButtonStates boot16 0
   \<and> digitalRead none_down (INPUTS ! 0) = lastButtonStates boot16 0
   \<and> curButtonStates boot16 0 = LOW
   \<and> curButtonStates (run boot16 ((100, red_down) # [(110, red_down), (129, none_down)])) 0 = LOW
   \<and> curButtonStates (run boot16 (((100, red_down) # [(110, red_down), (129, none_down)])
         @ [(200, none_down), (5000, none_down)])) 0 = LOW"
proof -
  let ?F = "[(110 :: c_ulong, red_down), (129, none_down)]"
  let ?G = "[(200 :: c_ulong, none_down), (5000, none_down)]"
  have h1: "(0::nat) < NUM_COLORS"
    by (simp add: NUM_COLORS_def)
  have h2: "digitalRead red_down (INPUTS ! 0) \<noteq> lastButtonStates boot16 0"
    and r: "digitalRead none_down (INPUTS ! 0) = lastButtonStates boot16 0"
    and c: "curButtonStates boot16 0 = LOW"
    by code_simp+
  have h3: "sorted (map (\<lambda>x. fst x - 100) ?F)" and h4: "\<forall>x\<in>set ?F. fst x - 100 < 30"
    by simp_all
  have h5: "\<forall>x\<in>set ?G. digitalRead (snd x) (INPUTS ! 0) = curButtonStates boot16 0"
    by code_simp
  from flicker_ignored [OF h1 h2 h3 h4 h5] h1 h2 r c show ?thesis
    by simp
qed

subsection \<open>Claim C6: persistence\<close>

text \<open>
  Claim C6. For every state whose brightness on channel \<open>i\<close> is a byte value (0 to 255),
  SaveState followed by a restart (the globals back at their initialisers, the EEPROM
  kept) and LoadState, or the whole of the start-up function, gives channel \<open>i\<close> the
  brightness it had when it was saved.
\<close>

theorem save_load_roundtrip:
  assumes "i < NUM_COLORS"
    and "0 \<le> sint (Values s i)" and "sint (Values s i) \<le> 255"
  shows "Values (LoadState (init (eeprom (SaveState s)))) i = Values s i
       \<and> Values (setup_sketch (init (eeprom (SaveState s)))) i = Values s i"
  using assms(1) ucast_int_id [OF assms(2,3)]
  by (auto simp: lt3 LoadState_eq setup_sketch_eq SaveState_eq init_def)

theorem save_load_roundtrip_witness:
  "(2::nat) < NUM_COLORS \<and> 0 \<le> sint (Values lit 2) \<and> sint (Values lit 2) \<le> 255
   \<and> Values (LoadState (init (eeprom (SaveState lit)))) 2 = 255
   \<and> Values (setup_sketch (init (eeprom (SaveState lit)))) 2 = 255"
proof -
  have h: "(2::nat) < NUM_COLORS" "0 \<le> sint (Values lit 2)" "sint (Values lit 2) \<le> 255"
    by (simp_all add: NUM_COLORS_def lit_def)
  show ?thesis
    using h save_load_roundtrip [OF h] by (simp add: lit_def)
qed

subsection \<open>Claim C7: a tap at 240\<close>

text \<open>
  Claim C7, as amended. A tap on channel 0 (a press and a release committed as in claim
  C1, with the held flag clear when the release is committed, as it is when no pass of the
  press meets the save condition or comes more than 1500 ms after the last raw
  transition) when its brightness is 240 results in brightness 255: 240 + 16 = 256 is cut
  down to 255.
\<close>

theorem tap_from_240:
  assumes "Values s 0 = 240"
    and "curButtonStates s 0 = LOW" and "stays 0 LOW s A"
    and "a = run s A" and "b = loop (fst p) (snd p) a" and "curButtonStates b 0 = HIGH"
    and "stays 0 HIGH b B"
    and "c = run b B" and "d = loop (fst r) (snd r) c" and "curButtonStates d 0 = LOW"
    and "stays 0 LOW d C"
  shows "(save_free a (p # B) \<and> fresh 0 a (p # B) \<longrightarrow> buttonsHeld c 0 = 0)
       \<and> (buttonsHeld c 0 = 0 \<longrightarrow> Values (run s (A @ p # B @ r # C)) 0 = 255)"
proof -
  have "(0::nat) < NUM_COLORS"
    by (simp add: NUM_COLORS_def)
  from tap_general [OF this assms(2-11)] assms(1) show ?thesis
    by (simp add: increment_def min_int_def PWM_INCREMENT_def word_sless_alt)
qed

theorem tap_from_240_witness:
  "Values boot240 0 = 240 \<and> curButtonStates boot240 0 = LOW
   \<and> stays 0 LOW boot240 bounce_press
   \<and> curButtonStates (loop 51 red_down (run boot240 bounce_press)) 0 = HIGH
   \<and> stays 0 HIGH (loop 51 red_down (run boot240 bounce_press)) bounce_release
   \<and> curButtonStates
        (loop 111 none_down (run (loop 51 red_down (run boot240 bounce_press)) bounce_release)) 0
       = LOW
   \<and> save_free (run boot240 bounce_press) ((51, red_down) # bounce_release)
   \<and> fresh 0 (run boot240 bounce_press) ((51, red_down) # bounce_release)
   \<and> buttonsHeld (run (loop 51 red_down (run boot240 bounce_press)) bounce_release) 0 = 0
   \<and> Values (run boot240
        (bounce_press @ (51, red_down) # bounce_release @ (111, none_down) # bounce_after)) 0
       = 255"
proof -
  let ?a = "run boot240 bounce_press"
  have h1: "Values boot240 0 = 240"
    and h3: "curButtonStates boot240 0 = LOW" "stays 0 LOW boot240 bounce_press"
    by code_simp+
  have h4: "curButtonStates (loop (fst (51, red_down)) (snd (51, red_down)) ?a) 0 = HIGH"
    by code_simp
  have h5: "stays 0 HIGH (loop (fst (51, red_down)) (snd (51, red_down)) ?a) bounce_release"
    by code_simp
  have h6: "curButtonStates (loop (fst (111, none_down)) (snd (111, none_down))
        (run (loop (fst (51, red_down)) (snd (51, red_down)) ?a) bounce_release)) 0 = LOW"
    by code_simp
  have h7: "stays 0 LOW (loop (fst (111, none_down)) (snd (111, none_down))
        (run (loop (fst (51, red_down)) (snd (51, red_down)) ?a) bounce_release)) bounce_after"
    by code_simp
  have t: "save_free ?a ((51, red_down) # bounce_release)"
    "fresh 0 ?a ((51, red_down) # bounce_release)"
    by code_simp+
  from tap_from_240 [OF h1 h3 refl refl h4 h5 refl refl h6 h7] h1 h3 h4 h5 h6 t
  show ?thesis
    by simp
qed

theorem tap_from_240_counterexample:
  "Values boot240 0 = 240 \<and> curButtonStates boot240 0 = LOW \<and> buttonsHeld boot240 0 = 0
   \<and> save_free boot240 tap_red
   \<and> curButtonStates (run boot240 (take 2 tap_red)) 0 = HIGH
   \<and> curButtonStates (run boot240 tap_red) 0 = LOW
   \<and> Values (run boot240 tap_red) 0 \<noteq> 0"
  by code_simp

subsection \<open>Claim C8: output writes\<close>

text \<open>
  Claim C8, as amended. In every state reached from start-up, the value of the last output
  write to the pin of channel \<open>i\<close> is the one recorded in \<open>lastValues\<close>; and if a pass
  writes to that pin, then either the pass meets the condition of the save gesture (whose
  blink writes every channel four times), or the brightness of the channel after the
  first loop differs from that recorded value and the write is of the new brightness.
\<close>

theorem output_write_only_on_change:
  assumes "i < NUM_COLORS"
    and "s = run (setup_sketch (init e)) ins"
    and "c = check_channels ts pins s"
    and "AnalogWrite (OUTPUTS ! i) v \<in> set (tick_events ts pins s)"
  shows "last_written (OUTPUTS ! i) (trace s) = Some (lastValues s i)
       \<and> (save_condition ts c \<or> (Values c i \<noteq> lastValues s i \<and> v = Values c i))"
proof -
  have "written_ok s"
    using assms(2) by (simp add: written_ok_run written_ok_start)
  then have w: "last_written (OUTPUTS ! i) (trace s) = Some (lastValues s i)"
    using assms(1) by (simp add: written_ok_def)
  have "Values c i \<noteq> lastValues s i \<and> v = Values c i" if "\<not> save_condition ts c"
    using that assms(1,3,4) by (simp add: tick_events_eq write_in_apply_events check_channels_rest)
  with w show ?thesis
    by blast
qed

theorem output_write_only_on_change_witness:
  "(0::nat) < NUM_COLORS
   \<and> AnalogWrite (OUTPUTS ! 0) 32 \<in> set (tick_events 71 none_down red_releasing16)
   \<and> \<not> save_condition 71 (check_channels 71 none_down red_releasing16)
   \<and> last_written (OUTPUTS ! 0) (trace red_releasing16) = Some 16
   \<and> lastValues red_releasing16 0 = 16
   \<and> Values (check_channels 71 none_down red_releasing16) 0 = 32"
proof -
  have h1: "(0::nat) < NUM_COLORS"
    by (simp add: NUM_COLORS_def)
  have h2: "red_releasing16 = run (setup_sketch (init rom16)) [(0, red_down), (31, red_down), (40, none_down)]"
    by (simp add: red_releasing16_def boot16_def)
  have h4: "AnalogWrite (OUTPUTS ! 0) 32 \<in> set (tick_events 71 none_down red_releasing16)"
    by code_simp
  have e: "\<not> save_condition 71 (check_channels 71 none_down red_releasing16)"
    "lastValues red_releasing16 0 = 16"
    by code_simp+
  from output_write_only_on_change [OF h1 h2 refl h4] h1 h4 e show ?thesis
    by simp
qed

theorem output_write_counterexample:
  "AnalogWrite (OUTPUTS ! 0) 0 \<in> set (tick_events 1032 all_down all_pressed16)
   \<and> Values (check_channels 1032 all_down all_pressed16) 0 = lastValues all_pressed16 0
   \<and> Values all_pressed16 0 = lastValues all_pressed16 0
   \<and> last_written (OUTPUTS ! 0) (trace all_pressed16) = Some (lastValues all_pressed16 0)"
  by code_simp

subsection \<open>Claim C9: one commit per transition\<close>

text \<open>
  Claim C9. If a pass changes the stable state of channel \<open>i\<close> (a debounce commit), the
  new stable state is the raw reading of that pass; and over any number of further passes
  with the same raw reading the stable state does not change again, and if that reading
  is released the brightness of the channel does not change either.
\<close>

theorem commit_once:
  assumes "i < NUM_COLORS"
    and "curButtonStates (loop ts pins s) i \<noteq> curButtonStates s i"
    and "\<forall>x\<in>set G. digitalRead (snd x) (INPUTS ! i) = digitalRead pins (INPUTS ! i)"
  shows "curButtonStates (loop ts pins s) i = digitalRead pins (INPUTS ! i)
       \<and> curButtonStates (run (loop ts pins s) G) i = curButtonStates (loop ts pins s) i
       \<and> (digitalRead pins (INPUTS ! i) = LOW \<longrightarrow>
            Values (run (loop ts pins s) G) i = Values (loop ts pins s) i)"
proof -
  have c: "curButtonStates (loop ts pins s) i = digitalRead pins (INPUTS ! i)"
    using assms(1,2) by (simp add: loop_fields chan_step_def Let_def split: if_splits)
  with assms(3) have "\<forall>x\<in>set G. digitalRead (snd x) (INPUTS ! i) = curButtonStates (loop ts pins s) i"
    by simp
  from stable_run [OF assms(1) this] c show ?thesis
    by simp
qed

theorem commit_once_witness:
  "(0::nat) < NUM_COLORS
   \<and> curButtonStates (loop 71 none_down red_releasing16) 0 \<noteq> curButtonStates red_releasing16 0
   \<and> digitalRead none_down (INPUTS ! 0) = LOW
   \<and> Values red_releasing16 0 = 16
   \<and> Values (loop 71 none_down red_releasing16) 0 = 32
   \<and> curButtonStates (run (loop 71 none_down red_releasing16)
        [(72, none_down), (200, none_down), (90000, none_down)]) 0 = LOW
   \<and> Values (run (loop 71 none_down red_releasing16)
        [(72, none_down), (200, none_down), (90000, none_down)]) 0 = 32"
proof -
  let ?G = "[(72 :: c_ulong, none_down), (200, none_down), (90000, none_down)]"
  have h1: "(0::nat) < NUM_COLORS"
    by (simp add: NUM_COLORS_def)
  have h2: "curButtonStates (loop 71 none_down red_releasing16) 0 \<noteq> curButtonStates red_releasing16 0"
    by code_simp
  have h3: "\<forall>x\<in>set ?G. digitalRead (snd x) (INPUTS ! 0) = digitalRead none_down (INPUTS ! 0)"
    by simp
  have e: "digitalRead none_down (INPUTS ! 0) = LOW" "Values red_releasing16 0 = 16"
    "Values (loop 71 none_down red_releasing16) 0 = 32"
    by code_simp+
  from commit_once [OF h1 h2 h3] h1 h2 e show ?thesis
    by simp
qed

subsection \<open>Claim C10: no write after start-up\<close>

text \<open>
  Claim C10. LoadState, and with it the start-up function, makes \<open>lastValues\<close> of every
  channel equal to its loaded brightness, the EEPROM byte at the channel's offset. Hence
  in any pass after start-up whose first loop leaves the brightness of channel \<open>i\<close> as it
  was, the apply step adds no write to the pin of channel \<open>i\<close> to the trace, and neither
  does the whole pass unless it meets the condition of the save gesture; in a pass whose
  first loop changes the brightness, the apply step writes the new brightness.
\<close>

theorem load_state_applied:
  assumes "i < NUM_COLORS"
    and "r = run (setup_sketch (init e)) ins" and "c = check_channels ts pins r"
  shows "lastValues (LoadState s) i = Values (LoadState s) i
       \<and> Values (LoadState s) i = ucast (eeprom s (i + EEPROM_DATA_OFFSET))
       \<and> lastValues (setup_sketch s) i = Values (setup_sketch s) i
       \<and> Values (setup_sketch s) i = ucast (eeprom s (i + EEPROM_DATA_OFFSET))
       \<and> (Values c i = Values r i \<longrightarrow>
            AnalogWrite (OUTPUTS ! i) v \<notin> set (drop (length (trace c)) (trace (apply_state c)))
            \<and> (\<not> save_condition ts c \<longrightarrow>
                 AnalogWrite (OUTPUTS ! i) v \<notin> set (tick_events ts pins r)))
       \<and> (Values c i \<noteq> Values r i \<longrightarrow>
            AnalogWrite (OUTPUTS ! i) (Values c i)
              \<in> set (drop (length (trace c)) (trace (apply_state c))))"
proof -
  have l: "lastValues (LoadState s) i = Values (LoadState s) i
       \<and> Values (LoadState s) i = ucast (eeprom s (i + EEPROM_DATA_OFFSET))
       \<and> lastValues (setup_sketch s) i = Values (setup_sketch s) i
       \<and> Values (setup_sketch s) i = ucast (eeprom s (i + EEPROM_DATA_OFFSET))"
    using assms(1) by (auto simp: lt3 LoadState_eq setup_sketch_eq EEPROM_DATA_OFFSET_def)
  have a: "lastValues c i = Values r i"
    using applied_inv [OF assms(1), of "init e" ins] assms(2,3) by (simp add: check_channels_rest)
  have d: "drop (length (trace c)) (trace (apply_state c)) = apply_events c"
    by (simp add: trace_apply_state)
  have w: "AnalogWrite (OUTPUTS ! i) v \<in> set (apply_events c) \<longleftrightarrow>
      Values c i \<noteq> Values r i \<and> v = Values c i" for v
    using a write_in_apply_events [OF assms(1), of v c] by simp
  have t: "tick_events ts pins r = apply_events c" if "\<not> save_condition ts c"
    using that assms(3) by (simp add: tick_events_eq)
  from l d w t show ?thesis
    by simp
qed

theorem load_state_applied_witness:
  "(0::nat) < NUM_COLORS
   \<and> lastValues (LoadState (init rom16)) 0 = 16 \<and> Values (LoadState (init rom16)) 0 = 16
   \<and> Values (check_channels 5 red_down (run (setup_sketch (init rom16)) [])) 0 =
       Values (run (setup_sketch (init rom16)) []) 0
   \<and> \<not> save_condition 5 (check_channels 5 red_down (run (setup_sketch (init rom16)) []))
   \<and> AnalogWrite (OUTPUTS ! 0) 16
       \<notin> set (drop (length (trace (check_channels 5 red_down (run (setup_sketch (init rom16)) []))))
                (trace (apply_state (check_channels 5 red_down (run (setup_sketch (init rom16)) [])))))
   \<and> AnalogWrite (OUTPUTS ! 0) 16
       \<notin> set (tick_events 5 red_down (run (setup_sketch (init rom16)) []))
   \<and> Values (check_channels 71 none_down red_releasing16) 0 \<noteq> Values red_releasing16 0
   \<and> AnalogWrite (OUTPUTS ! 0) 32
       \<in> set (drop (length (trace (check_channels 71 none_down red_releasing16)))
                (trace (apply_state (check_channels 71 none_down red_releasing16))))"
proof -
  have h1: "(0::nat) < NUM_COLORS"
    by (simp add: NUM_COLORS_def)
  have p: "Values (check_channels 5 red_down (run (setup_sketch (init rom16)) [])) 0 =
       Values (run (setup_sketch (init rom16)) []) 0"
    "\<not> save_condition 5 (check_channels 5 red_down (run (setup_sketch (init rom16)) []))"
    by code_simp+
  have e: "Values (LoadState (init rom16)) 0 = 16"
    by code_simp
  have h2: "red_releasing16 = run (setup_sketch (init rom16)) [(0, red_down), (31, red_down), (40, none_down)]"
    by (simp add: red_releasing16_def boot16_def)
  have q: "Values (check_channels 71 none_down red_releasing16) 0 \<noteq> Values red_releasing16 0"
    "Values (check_channels 71 none_down red_releasing16) 0 = 32"
    by code_simp+
  from load_state_applied [OF h1 refl refl, of "init rom16" 5 red_down rom16 "[]" 16]
    load_state_applied [OF h1 h2 refl, of "init rom16" 71 none_down 16] h1 p e q
  show ?thesis
    by simp
qed

end
